theory Spec2Isabelle
  imports Main
begin

section \<open>Python values, exceptions and dictionaries\<close>

text \<open>
  The module \<^verbatim>\<open>gns3/progress.py\<close> defines one class, \<^verbatim>\<open>Progress\<close>, a controller
  that keeps a dictionary of running network queries and drives one Qt progress dialog.
  The Qt objects it talks to (the dialog, the network replies, the timer) are external:
  they are modelled by the calls the controller makes on them, in the order it makes
  them, and by the one answer the controller reads back, \<^verbatim>\<open>wasCanceled()\<close>.
\<close>

type_synonym response_ref = nat
type_synonym dialog_ref = nat
type_synonym progress_ref = nat

datatype error = KeyError | TypeError | IndexError | UnboundLocalError

text \<open>
  The values stored in a query's dictionary. The slots are reached through the signals
  \<^verbatim>\<open>Signal(str, str, QNetworkReply)\<close>, \<^verbatim>\<open>Signal(str)\<close> and \<^verbatim>\<open>Signal(str, int, int)\<close>,
  which fix the types of their arguments.
\<close>

datatype pyval = PStr string | PInt int | PResponse response_ref

text \<open>
  A Python \<^verbatim>\<open>dict\<close> keeps its keys in insertion order: \<^verbatim>\<open>d[k] = v\<close> replaces the
  value of a key in place and appends a new key at the end, \<^verbatim>\<open>del d[k]\<close> removes the
  key, \<^verbatim>\<open>list(d.values())\<close> lists the values in that order. \<^const>\<open>map_of\<close> is the lookup.
\<close>

fun dict_set :: "'k \<Rightarrow> 'v \<Rightarrow> ('k \<times> 'v) list \<Rightarrow> ('k \<times> 'v) list" where
  "dict_set k v [] = [(k, v)]"
| "dict_set k v ((k', v') # kvs) =
     (if k' = k then (k, v) # kvs else (k', v') # dict_set k v kvs)"

fun dict_del :: "'k \<Rightarrow> ('k \<times> 'v) list \<Rightarrow> ('k \<times> 'v) list" where
  "dict_del k [] = []"
| "dict_del k ((k', v') # kvs) =
     (if k' = k then dict_del k kvs else (k', v') # dict_del k kvs)"

definition dict_values :: "('k \<times> 'v) list \<Rightarrow> 'v list" where
  "dict_values kvs = map snd kvs"

definition bind_err :: "error + 'a \<Rightarrow> ('a \<Rightarrow> error + 'b) \<Rightarrow> error + 'b" where
  "bind_err m f = (case m of Inl e \<Rightarrow> Inl e | Inr x \<Rightarrow> f x)"

text \<open>
  One query is the dictionary
  \<^verbatim>\<open>{"explanation": ..., "current": ..., "maximum": ..., "response": ...}\<close>.
  Reading a key that is missing raises \<^verbatim>\<open>KeyError\<close>; passing a value of the wrong type
  to Qt raises \<^verbatim>\<open>TypeError\<close>.
\<close>

type_synonym query = "(string \<times> pyval) list"

definition get_str :: "query \<Rightarrow> string \<Rightarrow> error + string" where
  "get_str q k =
     (case map_of q k of None \<Rightarrow> Inl KeyError | Some (PStr s) \<Rightarrow> Inr s | Some _ \<Rightarrow> Inl TypeError)"

definition get_int :: "query \<Rightarrow> string \<Rightarrow> error + int" where
  "get_int q k =
     (case map_of q k of None \<Rightarrow> Inl KeyError | Some (PInt i) \<Rightarrow> Inr i | Some _ \<Rightarrow> Inl TypeError)"

definition get_response :: "query \<Rightarrow> string \<Rightarrow> error + response_ref" where
  "get_response q k =
     (case map_of q k of None \<Rightarrow> Inl KeyError | Some (PResponse r) \<Rightarrow> Inr r
      | Some _ \<Rightarrow> Inl TypeError)"

section \<open>The state\<close>

text \<open>
  A \<^verbatim>\<open>QProgressDialog\<close> is the list of calls it has received, the constructor first,
  and the answer of \<^verbatim>\<open>wasCanceled()\<close>, which the toolkit sets when the user cancels.
\<close>

datatype dialog_call =
    Construct string "string option" int int
  | ConnectCanceled
  | SetWindowModality
  | SetWindowTitle string
  | SetMinimumDuration int
  | SetCancelButtonText string
  | SetCancelButtonNone
  | SetMaximum int
  | SetValue int
  | SetLabelText string
  | ShowCall
  | Exec
  | Cancel
  | DeleteLater

record dialog =
  was_canceled :: bool
  calls :: "dialog_call list"

text \<open>
  The attributes of a \<^verbatim>\<open>Progress\<close> object, as \<^verbatim>\<open>__init__\<close> sets them.
  \<^verbatim>\<open>_parent\<close> and \<^verbatim>\<open>_stimer\<close> are handles to toolkit objects that are never
  reassigned; the calls made through \<^verbatim>\<open>_stimer\<close> are recorded in \<open>timers\<close> below.
\<close>

record progress =
  progress_dialog :: "dialog_ref option"
  finished_query_during_display :: int
  queries :: "(string \<times> query) list"
  minimum_duration :: int
  cancel_button_text :: string
  allow_cancel_query :: bool
  enable :: bool

text \<open>
  The object together with what it acts on: the dialogs constructed so far (a reference
  is an index into the list), the responses on which \<^verbatim>\<open>abort()\<close> was called, and the
  delays of the \<^verbatim>\<open>singleShot\<close> timers started for \<^verbatim>\<open>_show_dialog\<close>.
\<close>

record world = progress +
  dialogs :: "dialog list"
  aborted :: "response_ref list"
  timers :: "int list"

definition init :: "int \<Rightarrow> progress" where
  "init min_duration =
     \<lparr>progress_dialog = None, finished_query_during_display = 0, queries = [],
      minimum_duration = min_duration, cancel_button_text = [],
      allow_cancel_query = False, enable = True\<rparr>"

definition new_world :: "int \<Rightarrow> world" where
  "new_world min_duration =
     \<lparr>progress_dialog = None, finished_query_during_display = 0, queries = [],
      minimum_duration = min_duration, cancel_button_text = [],
      allow_cancel_query = False, enable = True,
      dialogs = [], aborted = [], timers = []\<rparr>"

text \<open>One call on the dialog \<open>r\<close>, appended to its list.\<close>

definition call :: "dialog_ref \<Rightarrow> dialog_call \<Rightarrow> world \<Rightarrow> world" where
  "call r c w =
     w\<lparr>dialogs := (dialogs w)[r := (dialogs w ! r)\<lparr>calls := calls (dialogs w ! r) @ [c]\<rparr>]\<rparr>"

section \<open>The methods of \<^verbatim>\<open>Progress\<close>\<close>

text \<open>
  A method takes the state and returns the state it leaves, or \<open>Inl\<close> of the exception
  it raises. The methods keep their names without the leading underscore; \<^verbatim>\<open>show\<close>,
  \<^verbatim>\<open>context\<close> and \<^verbatim>\<open>instance\<close> are \<open>progress_show\<close>, \<open>progress_context\<close> and
  \<open>progress_instance\<close>, and the accessor \<^verbatim>\<open>progress_dialog()\<close> is the field
  \<open>progress_dialog\<close>. The calls of \<^verbatim>\<open>log.debug\<close> are left out.
\<close>

subsection \<open>\<^verbatim>\<open>show\<close>, \<^verbatim>\<open>_show_dialog\<close> and \<^verbatim>\<open>hide\<close>\<close>

text \<open>
  The dialog that \<^verbatim>\<open>show\<close> constructs when there is none, or when the present one was
  canceled: the constructor and the five calls that configure it. A dialog that has
  just been constructed has not been canceled.
\<close>

definition create_dialog :: "world \<Rightarrow> dialog" where
  "create_dialog w =
     \<lparr>was_canceled = False,
      calls =
        [Construct ''Waiting for server response'' None 0 0,
         ConnectCanceled,
         SetWindowModality,
         SetWindowTitle ''Please wait'',
         SetMinimumDuration (minimum_duration w),
         if length (cancel_button_text w) > 0
         then SetCancelButtonText (cancel_button_text w)
         else SetCancelButtonNone]\<rparr>"

text \<open>
  The \<^verbatim>\<open>else\<close> branch of \<^verbatim>\<open>show\<close>: with several queries running or finished the
  dialog counts queries, with one it shows that query's own progress.
\<close>

definition update_progress :: "dialog_ref \<Rightarrow> world \<Rightarrow> error + world" where
  "update_progress r w =
     (if int (length (queries w)) + finished_query_during_display w > 1 then
        Inr (call r (SetValue (finished_query_during_display w))
               (call r (SetMaximum (int (length (queries w)) + finished_query_during_display w)) w))
      else if length (queries w) = 1 then
        (case dict_values (queries w) of
           [] \<Rightarrow> Inl IndexError
         | query # _ \<Rightarrow>
             bind_err (get_int query ''maximum'') (\<lambda>m.
             bind_err (get_int query ''current'') (\<lambda>c.
               Inr (call r (SetValue c) (call r (SetMaximum m) w)))))
      else Inr w)"

text \<open>The label is the explanation of the first query of the dictionary.\<close>

definition set_label :: "dialog_ref \<Rightarrow> world \<Rightarrow> error + world" where
  "set_label r w =
     (if length (queries w) > 0 then
        (case dict_values (queries w) of
           [] \<Rightarrow> Inl IndexError
         | query # _ \<Rightarrow>
             bind_err (get_str query ''explanation'') (\<lambda>text.
               Inr (call r (SetLabelText text) w)))
      else Inr w)"

text \<open>
  The two branches of \<^verbatim>\<open>show\<close>, each followed by the label and, for a new dialog
  (\<^verbatim>\<open>start_timer\<close>), by the timer.
\<close>

definition show_new :: "world \<Rightarrow> error + world" where
  "show_new w =
     (let r = length (dialogs w);
          w1 = w\<lparr>progress_dialog := Some r,
                 finished_query_during_display := 0,
                 dialogs := dialogs w @ [create_dialog w]\<rparr>
      in bind_err (set_label r w1) (\<lambda>w2.
           Inr (w2\<lparr>timers := timers w2 @ [minimum_duration w2]\<rparr>)))"

definition show_existing :: "dialog_ref \<Rightarrow> world \<Rightarrow> error + world" where
  "show_existing r w = bind_err (update_progress r w) (set_label r)"

definition progress_show :: "world \<Rightarrow> error + world" where
  "progress_show w =
     (case progress_dialog w of
        None \<Rightarrow> show_new w
      | Some r \<Rightarrow>
          if was_canceled (dialogs w ! r) then show_new w else show_existing r w)"

definition show_dialog :: "world \<Rightarrow> world" where
  "show_dialog w =
     (case progress_dialog w of
        None \<Rightarrow> w
      | Some r \<Rightarrow> if enable w then call r Exec (call r ShowCall w) else w)"

definition hide :: "world \<Rightarrow> world" where
  "hide w =
     (case progress_dialog w of
        None \<Rightarrow> w
      | Some r \<Rightarrow> call r DeleteLater (call r Cancel (w\<lparr>progress_dialog := None\<rparr>)))"

subsection \<open>The slots\<close>

definition new_query :: "string \<Rightarrow> response_ref \<Rightarrow> query" where
  "new_query explanation response =
     [(''explanation'', PStr explanation), (''current'', PInt 0), (''maximum'', PInt 0),
      (''response'', PResponse response)]"

definition addQuerySlot :: "string \<Rightarrow> string \<Rightarrow> response_ref \<Rightarrow> world \<Rightarrow> error + world" where
  "addQuerySlot query_id explanation response w =
     progress_show (w\<lparr>queries := dict_set query_id (new_query explanation response) (queries w)\<rparr>)"

definition removeQuerySlot :: "string \<Rightarrow> world \<Rightarrow> error + world" where
  "removeQuerySlot query_id w =
     (let w1 = w\<lparr>finished_query_during_display := finished_query_during_display w + 1\<rparr>;
          w2 = (if map_of (queries w1) query_id \<noteq> None
                then w1\<lparr>queries := dict_del query_id (queries w1)\<rparr> else w1)
      in if length (queries w2) = 0 then Inr (hide w2) else progress_show w2)"

definition progressSlot :: "string \<Rightarrow> int \<Rightarrow> int \<Rightarrow> world \<Rightarrow> error + world" where
  "progressSlot query_id current maximum w =
     (case map_of (queries w) query_id of
        None \<Rightarrow> Inr w
      | Some query \<Rightarrow>
          progress_show
            (w\<lparr>queries :=
                 dict_set query_id
                   (dict_set ''maximum'' (PInt maximum) (dict_set ''current'' (PInt current) query))
                   (queries w)\<rparr>))"

definition setAllowCancelQuery :: "bool \<Rightarrow> world \<Rightarrow> world" where
  "setAllowCancelQuery allow w = w\<lparr>allow_cancel_query := allow\<rparr>"

definition setCancelButtonText :: "string \<Rightarrow> world \<Rightarrow> world" where
  "setCancelButtonText text w = w\<lparr>cancel_button_text := text\<rparr>"

text \<open>
  The loop of \<^verbatim>\<open>_cancelSlot\<close> over the values of a copy of the dictionary; the second
  argument is the list of responses aborted so far.
\<close>

fun abort_all :: "query list \<Rightarrow> response_ref list \<Rightarrow> error + response_ref list" where
  "abort_all [] so_far = Inr so_far"
| "abort_all (query # rest) so_far =
     bind_err (get_response query ''response'') (\<lambda>r. abort_all rest (so_far @ [r]))"

definition cancelSlot :: "world \<Rightarrow> error + world" where
  "cancelSlot w =
     (if allow_cancel_query w then
        bind_err (abort_all (dict_values (queries w)) (aborted w)) (\<lambda>a. Inr (w\<lparr>aborted := a\<rparr>))
      else Inr w)"

subsection \<open>The context manager\<close>

text \<open>
  The keyword arguments that \<^verbatim>\<open>context\<close> looks at (\<open>None\<close>: the key is not in
  \<^verbatim>\<open>kwargs\<close>), and its local variables (\<open>None\<close>: not assigned).
\<close>

record kwargs =
  kw_min_duration :: "int option"
  kw_enable :: "bool option"
  kw_cancel_button_text :: "string option"
  kw_allow_cancel_query :: "bool option"

record context_locals =
  old_minimum_duration :: "int option"
  old_enable :: "bool option"
  old_cancel_button_text :: "string option"
  old_allow_cancel_query :: "bool option"

definition no_locals :: context_locals where
  "no_locals =
     \<lparr>old_minimum_duration = None, old_enable = None, old_cancel_button_text = None,
      old_allow_cancel_query = None\<rparr>"

text \<open>The statements before \<^verbatim>\<open>yield\<close>.\<close>

definition context_enter :: "kwargs \<Rightarrow> world \<Rightarrow> context_locals \<times> world" where
  "context_enter kw w =
     (let (l1, w1) =
            (case kw_min_duration kw of
               None \<Rightarrow> (no_locals, w)
             | Some v \<Rightarrow> (no_locals\<lparr>old_minimum_duration := Some (minimum_duration w)\<rparr>,
                          w\<lparr>minimum_duration := v\<rparr>));
          (l2, w2) =
            (case kw_enable kw of
               None \<Rightarrow> (l1, w1)
             | Some v \<Rightarrow> (l1\<lparr>old_enable := Some (enable w1)\<rparr>, w1\<lparr>enable := v\<rparr>));
          (l3, w3) =
            (case kw_cancel_button_text kw of
               None \<Rightarrow> (l2, w2)
             | Some v \<Rightarrow> (l2\<lparr>old_cancel_button_text := Some (cancel_button_text w2)\<rparr>,
                          w2\<lparr>cancel_button_text := v\<rparr>))
      in (case kw_allow_cancel_query kw of
            None \<Rightarrow> (l3, w3)
          | Some v \<Rightarrow> (l3\<lparr>old_allow_cancel_query := Some (allow_cancel_query w3)\<rparr>,
                       w3\<lparr>allow_cancel_query := v\<rparr>)))"

text \<open>
  The statements after \<^verbatim>\<open>yield\<close>: each one reads its local variable only under the
  test that assigned it; reading an unassigned local raises \<^verbatim>\<open>UnboundLocalError\<close>.
\<close>

definition restore :: "'a option \<Rightarrow> 'b option \<Rightarrow> ('b \<Rightarrow> world \<Rightarrow> world) \<Rightarrow> world \<Rightarrow> error + world" where
  "restore passed old assign w =
     (case passed of
        None \<Rightarrow> Inr w
      | Some _ \<Rightarrow> (case old of None \<Rightarrow> Inl UnboundLocalError | Some v \<Rightarrow> Inr (assign v w)))"

definition context_exit :: "kwargs \<Rightarrow> context_locals \<Rightarrow> world \<Rightarrow> error + world" where
  "context_exit kw l w =
     bind_err (restore (kw_min_duration kw) (old_minimum_duration l)
                 (\<lambda>v w. w\<lparr>minimum_duration := v\<rparr>) w) (\<lambda>w1.
     bind_err (restore (kw_enable kw) (old_enable l)
                 (\<lambda>v w. w\<lparr>enable := v\<rparr>) w1) (\<lambda>w2.
     bind_err (restore (kw_allow_cancel_query kw) (old_allow_cancel_query l)
                 (\<lambda>v w. w\<lparr>allow_cancel_query := v\<rparr>) w2) (\<lambda>w3.
     restore (kw_cancel_button_text kw) (old_cancel_button_text l)
       (\<lambda>v w. w\<lparr>cancel_button_text := v\<rparr>) w3)))"

text \<open>
  \<^verbatim>\<open>with progress.context(**kwargs): body\<close>. An exception in the body leaves through the
  \<^verbatim>\<open>yield\<close>, which is not inside a \<^verbatim>\<open>try\<close>, so nothing after it runs.
\<close>

definition progress_context :: "kwargs \<Rightarrow> (world \<Rightarrow> error + world) \<Rightarrow> world \<Rightarrow> error + world" where
  "progress_context kw body w =
     (let (l, w1) = context_enter kw w in bind_err (body w1) (context_exit kw l))"

subsection \<open>The singleton accessor\<close>

text \<open>
  The class attribute \<^verbatim>\<open>Progress._instance\<close> (\<open>None\<close>: the class has no such attribute,
  \<open>Some None\<close>: it is \<^verbatim>\<open>None\<close>) and the \<^verbatim>\<open>Progress\<close> objects constructed so far; a
  reference is an index into the list.
\<close>

record progress_class =
  instance_attr :: "progress_ref option option"
  objects :: "progress list"

definition progress_instance :: "progress_class \<Rightarrow> progress_ref \<times> progress_class" where
  "progress_instance c =
     (case instance_attr c of
        Some (Some r) \<Rightarrow> (r, c)
      | _ \<Rightarrow>
          (let r = length (objects c)
           in (r, c\<lparr>instance_attr := Some (Some r), objects := objects c @ [init 1000]\<rparr>)))"

section \<open>The data-model invariant\<close>

definition is_str :: "pyval option \<Rightarrow> bool" where
  "is_str v = (case v of Some (PStr _) \<Rightarrow> True | _ \<Rightarrow> False)"

definition is_int :: "pyval option \<Rightarrow> bool" where
  "is_int v = (case v of Some (PInt _) \<Rightarrow> True | _ \<Rightarrow> False)"

definition is_response :: "pyval option \<Rightarrow> bool" where
  "is_response v = (case v of Some (PResponse _) \<Rightarrow> True | _ \<Rightarrow> False)"

text \<open>
  A query has exactly the four keys, each once, with a string, two integers and a
  response as values.
\<close>

definition query_ok :: "query \<Rightarrow> bool" where
  "query_ok q =
     (distinct (map fst q) \<and>
      set (map fst q) = {''explanation'', ''current'', ''maximum'', ''response''} \<and>
      is_str (map_of q ''explanation'') \<and> is_int (map_of q ''current'') \<and>
      is_int (map_of q ''maximum'') \<and> is_response (map_of q ''response''))"

definition queries_ok :: "(string \<times> query) list \<Rightarrow> bool" where
  "queries_ok qs = (distinct (map fst qs) \<and> list_all query_ok (dict_values qs))"

text \<open>The dialog reference, when there is one, points to a constructed dialog.\<close>

definition dialog_ok :: "world \<Rightarrow> bool" where
  "dialog_ok w = (case progress_dialog w of None \<Rightarrow> True | Some r \<Rightarrow> r < length (dialogs w))"

section \<open>States used as examples\<close>

text \<open>
  The state after \<^verbatim>\<open>_addQuerySlot("a", "Loading", r7)\<close> and \<^verbatim>\<open>_progressSlot("a", 3, 10)\<close>
  on a new object, and the same state after the user has canceled the dialog.
\<close>

definition one_query_world :: world where
  "one_query_world =
     \<lparr>progress_dialog = Some 0, finished_query_during_display = 0,
      queries =
        [(''a'', [(''explanation'', PStr ''Loading''), (''current'', PInt 3),
                  (''maximum'', PInt 10), (''response'', PResponse 7)])],
      minimum_duration = 1000, cancel_button_text = [],
      allow_cancel_query = False, enable = True,
      dialogs =
        [\<lparr>was_canceled = False,
          calls =
            [Construct ''Waiting for server response'' None 0 0, ConnectCanceled,
             SetWindowModality, SetWindowTitle ''Please wait'', SetMinimumDuration 1000,
             SetCancelButtonNone, SetLabelText ''Loading'', SetMaximum 10, SetValue 3,
             SetLabelText ''Loading'']\<rparr>],
      aborted = [], timers = [1000]\<rparr>"

definition canceled_world :: world where
  "canceled_world =
     one_query_world\<lparr>dialogs := [(dialogs one_query_world ! 0)\<lparr>was_canceled := True\<rparr>]\<rparr>"

text \<open>
  The state that \<^verbatim>\<open>_removeQuerySlot("b")\<close> makes of the canceled state: a second dialog
  is held, and a second timer runs.
\<close>

definition restarted_world :: world where
  "restarted_world =
     canceled_world
       \<lparr>progress_dialog := Some 1,
        dialogs := dialogs canceled_world @
          [\<lparr>was_canceled = False,
            calls =
              [Construct ''Waiting for server response'' None 0 0, ConnectCanceled,
               SetWindowModality, SetWindowTitle ''Please wait'', SetMinimumDuration 1000,
               SetCancelButtonNone, SetLabelText ''Loading'']\<rparr>],
        timers := [1000, 1000]\<rparr>"

text \<open>
  Keyword arguments and a block for \<^verbatim>\<open>context\<close>, and the class before the first call
  of \<^verbatim>\<open>instance\<close>.
\<close>

definition example_kwargs :: kwargs where
  "example_kwargs =
     \<lparr>kw_min_duration = Some 0, kw_enable = Some False, kw_cancel_button_text = None,
      kw_allow_cancel_query = None\<rparr>"

definition example_block :: "world \<Rightarrow> error + world" where
  "example_block w = Inr (setCancelButtonText ''Stop'' w)"

definition no_instance :: progress_class where
  "no_instance = \<lparr>instance_attr = None, objects = []\<rparr>"

section \<open>Notation for results\<close>

text \<open>
  A state with calls appended to the dialog \<open>r\<close>, a state with a newly constructed
  dialog, and the calls that \<^verbatim>\<open>show\<close> makes for the label and for the progress.
\<close>

abbreviation with_calls :: "dialog_ref \<Rightarrow> dialog_call list \<Rightarrow> world \<Rightarrow> world" where
  "with_calls r cs w \<equiv>
     w\<lparr>dialogs := (dialogs w)[r := (dialogs w ! r)\<lparr>calls := calls (dialogs w ! r) @ cs\<rparr>]\<rparr>"

abbreviation with_new_dialog :: "world \<Rightarrow> world" where
  "with_new_dialog w \<equiv>
     w\<lparr>progress_dialog := Some (length (dialogs w)),
       finished_query_during_display := 0,
       dialogs := dialogs w @ [create_dialog w]\<rparr>"

abbreviation label_part :: "(string \<times> query) list \<Rightarrow> dialog_call list \<Rightarrow> bool" where
  "label_part qs label \<equiv>
     (qs = [] \<and> label = []) \<or>
     (\<exists>k q rest t. qs = (k, q) # rest \<and> map_of q ''explanation'' = Some (PStr t) \<and>
        label = [SetLabelText t])"

abbreviation progress_part :: "world \<Rightarrow> dialog_call list \<Rightarrow> bool" where
  "progress_part w cs \<equiv>
     (if int (length (queries w)) + finished_query_during_display w > 1
      then cs = [SetMaximum (int (length (queries w)) + finished_query_during_display w),
                 SetValue (finished_query_during_display w)]
      else if length (queries w) = 1
      then \<exists>k q m c. queries w = [(k, q)] \<and> map_of q ''maximum'' = Some (PInt m) \<and>
             map_of q ''current'' = Some (PInt c) \<and> cs = [SetMaximum m, SetValue c]
      else cs = [])"

section \<open>Lemmas\<close>

subsection \<open>Dictionaries\<close>

lemma map_of_dict_set: "map_of (dict_set k v kvs) = (map_of kvs)(k \<mapsto> v)"
  by (induction kvs) (auto simp: fun_eq_iff)

lemma map_of_dict_del: "map_of (dict_del k kvs) = (map_of kvs)(k := None)"
  by (induction kvs) (auto simp: fun_eq_iff)

text \<open>Assigning to a key that is present keeps the order of the keys; a new key goes last.\<close>

lemma keys_dict_set_in: "k \<in> fst ` set kvs \<Longrightarrow> map fst (dict_set k v kvs) = map fst kvs"
  by (induction kvs) force+

lemma keys_dict_set_notin:
  "k \<notin> fst ` set kvs \<Longrightarrow> map fst (dict_set k v kvs) = map fst kvs @ [k]"
  by (induction kvs) auto

lemma keys_dict_set:
  "map fst (dict_set k v kvs) = (if k \<in> set (map fst kvs) then map fst kvs else map fst kvs @ [k])"
  by (simp add: keys_dict_set_in keys_dict_set_notin)

lemma keys_dict_del: "map fst (dict_del k kvs) = removeAll k (map fst kvs)"
  by (induction kvs) auto

lemma distinct_dict_set: "distinct (map fst kvs) \<Longrightarrow> distinct (map fst (dict_set k v kvs))"
  by (simp add: keys_dict_set)

lemma distinct_dict_del: "distinct (map fst kvs) \<Longrightarrow> distinct (map fst (dict_del k kvs))"
  by (simp add: keys_dict_del distinct_removeAll)

lemma values_dict_set:
  "list_all P (dict_values kvs) \<Longrightarrow> P v \<Longrightarrow> list_all P (dict_values (dict_set k v kvs))"
  by (induction kvs) (auto simp: dict_values_def)

lemma values_dict_del:
  "list_all P (dict_values kvs) \<Longrightarrow> list_all P (dict_values (dict_del k kvs))"
  by (induction kvs) (auto simp: dict_values_def)

lemma values_lookup:
  "list_all P (dict_values kvs) \<Longrightarrow> map_of kvs k = Some v \<Longrightarrow> P v"
  by (induction kvs) (auto simp: dict_values_def split: if_splits)

lemma bind_err_Inr [simp]: "bind_err (Inr x) f = f x"
  by (simp add: bind_err_def)

lemma bind_err_Inl [simp]: "bind_err (Inl e) f = Inl e"
  by (simp add: bind_err_def)

subsection \<open>Well-formed queries\<close>

lemma get_str_Some: "map_of q k = Some (PStr s) \<Longrightarrow> get_str q k = Inr s"
  by (simp add: get_str_def)

lemma get_int_Some: "map_of q k = Some (PInt i) \<Longrightarrow> get_int q k = Inr i"
  by (simp add: get_int_def)

lemma get_response_Some: "map_of q k = Some (PResponse r) \<Longrightarrow> get_response q k = Inr r"
  by (simp add: get_response_def)

lemma query_ok_fields:
  assumes "query_ok q"
  obtains s c m r where "map_of q ''explanation'' = Some (PStr s)"
    "map_of q ''current'' = Some (PInt c)" "map_of q ''maximum'' = Some (PInt m)"
    "map_of q ''response'' = Some (PResponse r)"
  using assms unfolding query_ok_def is_str_def is_int_def is_response_def
  by (auto split: option.splits pyval.splits)

lemma query_ok_new_query: "query_ok (new_query e r)"
  by (simp add: query_ok_def new_query_def is_str_def is_int_def is_response_def)

lemma query_ok_progress:
  assumes "query_ok q"
  shows "query_ok (dict_set ''maximum'' (PInt m) (dict_set ''current'' (PInt c) q))"
  using assms unfolding query_ok_def
  by (simp add: keys_dict_set map_of_dict_set is_int_def)

lemma queries_ok_first:
  assumes "queries_ok ((k, q) # rest)"
  shows "query_ok q"
  using assms by (simp add: queries_ok_def dict_values_def)

lemma queries_ok_lookup: "queries_ok qs \<Longrightarrow> map_of qs k = Some q \<Longrightarrow> query_ok q"
  using values_lookup [of query_ok qs k q] by (simp add: queries_ok_def)

lemma queries_ok_dict_set:
  "queries_ok qs \<Longrightarrow> query_ok q \<Longrightarrow> queries_ok (dict_set k q qs)"
  by (simp add: queries_ok_def distinct_dict_set values_dict_set)

lemma queries_ok_dict_del: "queries_ok qs \<Longrightarrow> queries_ok (dict_del k qs)"
  by (simp add: queries_ok_def distinct_dict_del values_dict_del)

lemma queries_ok_new_world: "queries_ok (queries (new_world d))"
  by (simp add: new_world_def queries_ok_def dict_values_def)

lemma truncate_new_world: "progress.truncate (new_world d) = init d"
  by (simp add: new_world_def init_def progress.truncate_def)

subsection \<open>Calls on a dialog\<close>

lemma call_with_calls: "call r c w = with_calls r [c] w"
  by (simp add: call_def)

lemma with_calls_append: "with_calls r cs2 (with_calls r cs1 w) = with_calls r (cs1 @ cs2) w"
  by (cases "r < length (dialogs w)") (simp_all add: list_update_beyond not_less)

lemma call_twice: "call r c2 (call r c1 w) = with_calls r [c1, c2] w"
  by (simp only: call_with_calls with_calls_append append.simps)

subsection \<open>The label and the progress\<close>

lemma set_label_empty: "queries w = [] \<Longrightarrow> set_label r w = Inr w"
  by (simp add: set_label_def)

lemma set_label_first:
  assumes "queries w = (k, q) # rest" "map_of q ''explanation'' = Some (PStr t)"
  shows "set_label r w = Inr (with_calls r [SetLabelText t] w)"
  using assms by (simp add: set_label_def dict_values_def get_str_Some call_def)

lemma set_label_result:
  assumes "queries_ok (queries w)"
  shows "\<exists>label. label_part (queries w) label \<and> set_label r w = Inr (with_calls r label w)"
proof (cases "queries w")
  case Nil
  then have "set_label r w = Inr (with_calls r [] w)"
    by (simp add: set_label_empty)
  with Nil show ?thesis by blast
next
  case (Cons kq rest)
  obtain k q where kq: "kq = (k, q)" by (cases kq)
  with Cons assms have "query_ok q" by (simp add: queries_ok_first)
  then obtain t where t: "map_of q ''explanation'' = Some (PStr t)"
    by (rule query_ok_fields)
  with Cons kq have "set_label r w = Inr (with_calls r [SetLabelText t] w)"
    by (simp add: set_label_first)
  with Cons kq t show ?thesis by blast
qed

lemma update_progress_many:
  assumes "int (length (queries w)) + finished_query_during_display w > 1"
  shows "update_progress r w =
    Inr (with_calls r [SetMaximum (int (length (queries w)) + finished_query_during_display w),
                       SetValue (finished_query_during_display w)] w)"
  using assms by (simp add: update_progress_def call_twice)

lemma update_progress_one:
  assumes "\<not> int (length (queries w)) + finished_query_during_display w > 1"
    and "queries w = [(k, q)]"
    and "map_of q ''maximum'' = Some (PInt m)" "map_of q ''current'' = Some (PInt c)"
  shows "update_progress r w = Inr (with_calls r [SetMaximum m, SetValue c] w)"
  using assms by (simp add: update_progress_def dict_values_def get_int_Some call_twice)

lemma update_progress_none:
  assumes "\<not> int (length (queries w)) + finished_query_during_display w > 1"
    and "length (queries w) \<noteq> 1"
  shows "update_progress r w = Inr w"
  using assms by (simp add: update_progress_def)

lemma update_progress_result:
  assumes "queries_ok (queries w)"
  shows "\<exists>cs. progress_part w cs \<and> update_progress r w = Inr (with_calls r cs w)"
proof (cases "int (length (queries w)) + finished_query_during_display w > 1")
  case True
  then show ?thesis using update_progress_many by auto
next
  case many: False
  show ?thesis
  proof (cases "length (queries w) = 1")
    case True
    then obtain k q where kq: "queries w = [(k, q)]"
      by (cases "queries w") auto
    with assms have "query_ok q" by (simp add: queries_ok_first)
    then obtain m c
      where mc: "map_of q ''maximum'' = Some (PInt m)" "map_of q ''current'' = Some (PInt c)"
      by (rule query_ok_fields)
    with many kq have "update_progress r w = Inr (with_calls r [SetMaximum m, SetValue c] w)"
      by (rule update_progress_one)
    with many True kq mc show ?thesis by auto
  next
    case False
    with many have "update_progress r w = Inr (with_calls r [] w)"
      by (simp add: update_progress_none)
    with many False show ?thesis by auto
  qed
qed

subsection \<open>\<^verbatim>\<open>show\<close>\<close>

lemma show_existing_result:
  assumes "queries_ok (queries w)"
  shows "\<exists>cs label. progress_part w cs \<and> label_part (queries w) label \<and>
           show_existing r w = Inr (with_calls r (cs @ label) w)"
proof -
  from assms obtain cs
    where cs: "progress_part w cs" "update_progress r w = Inr (with_calls r cs w)"
    using update_progress_result by blast
  from assms have "queries_ok (queries (with_calls r cs w))" by simp
  then obtain label where label: "label_part (queries (with_calls r cs w)) label"
    "set_label r (with_calls r cs w) = Inr (with_calls r label (with_calls r cs w))"
    using set_label_result by blast
  from label(2) have "set_label r (with_calls r cs w) = Inr (with_calls r (cs @ label) w)"
    by (simp only: with_calls_append)
  with cs(2) have "show_existing r w = Inr (with_calls r (cs @ label) w)"
    unfolding show_existing_def by (simp only: bind_err_Inr)
  moreover from label(1) have "label_part (queries w) label" by simp
  ultimately show ?thesis using cs(1) by blast
qed

lemma show_existing_ok:
  assumes "queries_ok (queries w)"
  shows "\<exists>cs. show_existing r w = Inr (with_calls r cs w)"
  using show_existing_result [OF assms] by blast

lemma show_new_result:
  assumes "queries_ok (queries w)"
  shows "\<exists>label. label_part (queries w) label \<and>
           show_new w =
             Inr ((with_calls (length (dialogs w)) label (with_new_dialog w))
                    \<lparr>timers := timers w @ [minimum_duration w]\<rparr>)"
proof -
  from assms have "queries_ok (queries (with_new_dialog w))" by simp
  then obtain label where label: "label_part (queries (with_new_dialog w)) label"
    "set_label (length (dialogs w)) (with_new_dialog w) =
       Inr (with_calls (length (dialogs w)) label (with_new_dialog w))"
    using set_label_result by blast
  from label(2) have "show_new w =
    Inr ((with_calls (length (dialogs w)) label (with_new_dialog w))
           \<lparr>timers := timers w @ [minimum_duration w]\<rparr>)"
    by (simp add: show_new_def Let_def)
  moreover from label(1) have "label_part (queries w) label" by simp
  ultimately show ?thesis by blast
qed

lemma progress_show_existing:
  assumes "progress_dialog w = Some r" "\<not> was_canceled (dialogs w ! r)"
  shows "progress_show w = show_existing r w"
  using assms by (simp add: progress_show_def)

lemma progress_show_new:
  assumes "case progress_dialog w of None \<Rightarrow> True | Some r \<Rightarrow> was_canceled (dialogs w ! r)"
  shows "progress_show w = show_new w"
  using assms by (simp add: progress_show_def split: option.splits)

lemma progress_show_new_result:
  assumes "queries_ok (queries w)"
    and "case progress_dialog w of None \<Rightarrow> True | Some r \<Rightarrow> was_canceled (dialogs w ! r)"
  shows "\<exists>label. progress_show w =
             Inr ((with_calls (length (dialogs w)) label (with_new_dialog w))
                    \<lparr>timers := timers w @ [minimum_duration w]\<rparr>)"
  using show_new_result [OF assms(1)] assms(2) by (auto simp: progress_show_new)

lemma progress_show_existing_result:
  assumes "queries_ok (queries w)"
    and "progress_dialog w = Some r" "\<not> was_canceled (dialogs w ! r)"
  shows "\<exists>cs. progress_show w = Inr (with_calls r cs w)"
  using show_existing_ok [OF assms(1)] assms(2,3) by (simp add: progress_show_existing)

text \<open>
  \<^verbatim>\<open>show\<close> does not raise on a well-formed collection, and it leaves the collection,
  the settings and the aborted responses alone.
\<close>

lemma progress_show_frame:
  assumes "queries_ok (queries w)"
  shows "\<exists>w'. progress_show w = Inr w' \<and> queries w' = queries w \<and>
           minimum_duration w' = minimum_duration w \<and>
           cancel_button_text w' = cancel_button_text w \<and>
           allow_cancel_query w' = allow_cancel_query w \<and> enable w' = enable w \<and>
           aborted w' = aborted w"
proof (cases "case progress_dialog w of None \<Rightarrow> True | Some r \<Rightarrow> was_canceled (dialogs w ! r)")
  case True
  with assms obtain label where "progress_show w =
             Inr ((with_calls (length (dialogs w)) label (with_new_dialog w))
                    \<lparr>timers := timers w @ [minimum_duration w]\<rparr>)"
    using progress_show_new_result by blast
  then show ?thesis by simp
next
  case False
  then obtain r where "progress_dialog w = Some r" "\<not> was_canceled (dialogs w ! r)"
    by (cases "progress_dialog w") simp_all
  with assms obtain cs where "progress_show w = Inr (with_calls r cs w)"
    using progress_show_existing_result by blast
  then show ?thesis by simp
qed

lemma progress_show_preserves:
  assumes "queries_ok (queries w)"
  shows "\<exists>w'. progress_show w = Inr w' \<and> queries_ok (queries w')"
proof -
  from assms obtain w' where "progress_show w = Inr w'" "queries w' = queries w"
    using progress_show_frame by blast
  with assms have "progress_show w = Inr w' \<and> queries_ok (queries w')" by simp
  then show ?thesis by (rule exI)
qed

text \<open>After \<^verbatim>\<open>show\<close> a dialog is held.\<close>

lemma progress_show_dialog:
  assumes "queries_ok (queries w)" "dialog_ok w"
  shows "\<exists>w' r. progress_show w = Inr w' \<and> progress_dialog w' = Some r \<and> r < length (dialogs w')"
proof (cases "case progress_dialog w of None \<Rightarrow> True | Some r \<Rightarrow> was_canceled (dialogs w ! r)")
  case True
  with assms(1) obtain label where "progress_show w =
             Inr ((with_calls (length (dialogs w)) label (with_new_dialog w))
                    \<lparr>timers := timers w @ [minimum_duration w]\<rparr>)"
    using progress_show_new_result by blast
  then show ?thesis by simp
next
  case False
  then obtain r where r: "progress_dialog w = Some r" "\<not> was_canceled (dialogs w ! r)"
    by (cases "progress_dialog w") simp_all
  with assms(1) obtain cs where "progress_show w = Inr (with_calls r cs w)"
    using progress_show_existing_result by blast
  with r(1) assms(2) show ?thesis by (simp add: dialog_ok_def)
qed

subsection \<open>\<^verbatim>\<open>_show_dialog\<close>, \<^verbatim>\<open>hide\<close> and \<^verbatim>\<open>_cancelSlot\<close>\<close>

lemma show_dialog_result:
  "show_dialog w =
     (case progress_dialog w of
        None \<Rightarrow> w
      | Some r \<Rightarrow> if enable w then with_calls r [ShowCall, Exec] w else w)"
  by (simp add: show_dialog_def call_twice split: option.splits)

lemma hide_result:
  "hide w = (case progress_dialog w of None \<Rightarrow> w
             | Some r \<Rightarrow> with_calls r [Cancel, DeleteLater] (w\<lparr>progress_dialog := None\<rparr>))"
  by (simp add: hide_def call_twice split: option.splits)

lemma queries_hide: "queries (hide w) = queries w"
  by (simp add: hide_result split: option.splits)

lemma abort_all_result:
  assumes "list_all query_ok qs"
  shows "\<exists>rs. map (\<lambda>q. map_of q ''response'') qs = map (\<lambda>r. Some (PResponse r)) rs \<and>
           abort_all qs so_far = Inr (so_far @ rs)"
  using assms
proof (induction qs arbitrary: so_far)
  case Nil
  then show ?case by simp
next
  case (Cons q qs)
  from Cons.prems have "query_ok q" by simp
  then obtain r where r: "map_of q ''response'' = Some (PResponse r)"
    by (rule query_ok_fields)
  from Cons.prems have "list_all query_ok qs" by simp
  then obtain rs
    where rs: "map (\<lambda>q. map_of q ''response'') qs = map (\<lambda>r. Some (PResponse r)) rs"
      "abort_all qs (so_far @ [r]) = Inr ((so_far @ [r]) @ rs)"
    using Cons.IH by blast
  from r rs
  have "map (\<lambda>q. map_of q ''response'') (q # qs) = map (\<lambda>r. Some (PResponse r)) (r # rs)"
    by simp
  moreover from r rs(2) have "abort_all (q # qs) so_far = Inr (so_far @ r # rs)"
    by (simp add: get_response_Some)
  ultimately show ?case by blast
qed

lemma cancelSlot_preserves:
  assumes "queries_ok (queries w)"
  shows "\<exists>w'. cancelSlot w = Inr w' \<and> queries_ok (queries w')"
proof -
  from assms have "list_all query_ok (dict_values (queries w))"
    by (simp add: queries_ok_def)
  then obtain rs where "abort_all (dict_values (queries w)) (aborted w) = Inr (aborted w @ rs)"
    using abort_all_result by blast
  with assms show ?thesis
    by (simp add: cancelSlot_def)
qed

subsection \<open>The context manager\<close>

lemma context_enter_result:
  "context_enter kw w =
     (\<lparr>old_minimum_duration = map_option (\<lambda>_. minimum_duration w) (kw_min_duration kw),
       old_enable = map_option (\<lambda>_. enable w) (kw_enable kw),
       old_cancel_button_text = map_option (\<lambda>_. cancel_button_text w) (kw_cancel_button_text kw),
       old_allow_cancel_query = map_option (\<lambda>_. allow_cancel_query w) (kw_allow_cancel_query kw)\<rparr>,
      w\<lparr>minimum_duration := (case kw_min_duration kw of None \<Rightarrow> minimum_duration w | Some v \<Rightarrow> v),
        enable := (case kw_enable kw of None \<Rightarrow> enable w | Some v \<Rightarrow> v),
        cancel_button_text :=
          (case kw_cancel_button_text kw of None \<Rightarrow> cancel_button_text w | Some v \<Rightarrow> v),
        allow_cancel_query :=
          (case kw_allow_cancel_query kw of None \<Rightarrow> allow_cancel_query w | Some v \<Rightarrow> v)\<rparr>)"
  by (simp add: context_enter_def no_locals_def split: option.splits)

text \<open>A local variable assigned under a test is bound where the same test reads it.\<close>

lemma restore_result:
  "restore passed (map_option (\<lambda>_. old) passed) assign w =
     Inr (if passed = None then w else assign old w)"
  by (simp add: restore_def split: option.splits)

lemma context_exit_result:
  "context_exit kw (fst (context_enter kw w)) w2 =
     Inr (w2\<lparr>minimum_duration :=
              (if kw_min_duration kw = None then minimum_duration w2 else minimum_duration w),
            enable := (if kw_enable kw = None then enable w2 else enable w),
            cancel_button_text :=
              (if kw_cancel_button_text kw = None then cancel_button_text w2
               else cancel_button_text w),
            allow_cancel_query :=
              (if kw_allow_cancel_query kw = None then allow_cancel_query w2
               else allow_cancel_query w)\<rparr>)"
  by (simp add: context_enter_result context_exit_def restore_result)

subsection \<open>The example states\<close>

lemmas method_defs =
  addQuerySlot_def removeQuerySlot_def progressSlot_def cancelSlot_def progress_show_def
  show_new_def show_existing_def update_progress_def set_label_def create_dialog_def hide_def
  call_def dict_values_def get_str_def get_int_def get_response_def new_query_def

text \<open>The example state is the one its description says.\<close>

lemma one_query_world_reached:
  "bind_err (addQuerySlot ''a'' ''Loading'' 7 (new_world 1000)) (progressSlot ''a'' 3 10)
     = Inr one_query_world"
  by (simp add: method_defs new_world_def one_query_world_def)

lemma queries_ok_one_query_world: "queries_ok (queries one_query_world)"
  by (simp add: one_query_world_def queries_ok_def query_ok_def dict_values_def
      is_str_def is_int_def is_response_def)

section \<open>C1: cancellation is forwarded to the responses\<close>

text \<open>
  C1, as claimed: whenever \<^verbatim>\<open>_cancelSlot\<close> runs, \<^verbatim>\<open>abort()\<close> is called on the
  response of every tracked query. It fails on an object with the default settings:
  \<^verbatim>\<open>_allow_cancel_query\<close> is \<^verbatim>\<open>False\<close> after \<^verbatim>\<open>__init__\<close>, and \<^verbatim>\<open>_cancelSlot\<close>
  then returns without a call. The state below is reached by one \<^verbatim>\<open>_addQuerySlot\<close> and
  one \<^verbatim>\<open>_progressSlot\<close>; its query has the response 7, and after \<^verbatim>\<open>_cancelSlot\<close>
  no response has been aborted.
\<close>

theorem cancelSlot_ignored_counterexample:
  "bind_err (addQuerySlot ''a'' ''Loading'' 7 (new_world 1000)) (progressSlot ''a'' 3 10)
     = Inr one_query_world \<and>
   get_response (snd (hd (queries one_query_world))) ''response'' = Inr 7 \<and>
   cancelSlot one_query_world = Inr one_query_world \<and>
   aborted one_query_world = []"
  by (simp add: method_defs new_world_def one_query_world_def)

text \<open>
  C1, amended: \<^verbatim>\<open>_cancelSlot\<close> never fails on a well-formed collection. When
  \<^verbatim>\<open>_allow_cancel_query\<close> is set, it calls \<^verbatim>\<open>abort()\<close> on the response of every
  tracked query, once each and in the order of the dictionary, and changes nothing
  else; when it is not set, it changes nothing.
\<close>

theorem cancelSlot_aborts_when_allowed:
  assumes "queries_ok (queries w)"
  shows "if allow_cancel_query w
         then \<exists>rs. map (\<lambda>q. map_of q ''response'') (dict_values (queries w))
                      = map (\<lambda>r. Some (PResponse r)) rs \<and>
                    cancelSlot w = Inr (w\<lparr>aborted := aborted w @ rs\<rparr>)
         else cancelSlot w = Inr w"
proof (cases "allow_cancel_query w")
  case True
  from assms have "list_all query_ok (dict_values (queries w))"
    by (simp add: queries_ok_def)
  then obtain rs where "map (\<lambda>q. map_of q ''response'') (dict_values (queries w))
                      = map (\<lambda>r. Some (PResponse r)) rs"
    "abort_all (dict_values (queries w)) (aborted w) = Inr (aborted w @ rs)"
    using abort_all_result by blast
  with True show ?thesis
    by (auto simp: cancelSlot_def)
next
  case False
  then show ?thesis by (simp add: cancelSlot_def)
qed

text \<open>
  C1, at the example state: with cancellation allowed the response 7 is aborted, with
  cancellation not allowed the state is unchanged.
\<close>

theorem cancelSlot_aborts_when_allowed_witness:
  "queries_ok (queries (setAllowCancelQuery True one_query_world)) \<and>
   cancelSlot (setAllowCancelQuery True one_query_world)
     = Inr ((setAllowCancelQuery True one_query_world)\<lparr>aborted := [7]\<rparr>) \<and>
   cancelSlot (setAllowCancelQuery False one_query_world)
     = Inr (setAllowCancelQuery False one_query_world)"
proof -
  have ok: "queries_ok (queries (setAllowCancelQuery b one_query_world))" for b
    using queries_ok_one_query_world by (simp add: setAllowCancelQuery_def)
  have 1: "map (\<lambda>q. map_of q ''response'') (dict_values (queries (setAllowCancelQuery True one_query_world)))
            = map (\<lambda>r. Some (PResponse r)) rs \<longleftrightarrow> rs = [7]" for rs
    by (auto simp: setAllowCancelQuery_def one_query_world_def dict_values_def)
  have 2: "aborted (setAllowCancelQuery True one_query_world) = []"
    "allow_cancel_query (setAllowCancelQuery b one_query_world) = b" for b
    by (simp_all add: setAllowCancelQuery_def one_query_world_def)
  from cancelSlot_aborts_when_allowed [OF ok [of True]]
    cancelSlot_aborts_when_allowed [OF ok [of False]]
  show ?thesis
    using ok by (simp add: 1 2)
qed

section \<open>C2: the progress shown by an existing dialog\<close>

text \<open>
  C2: \<^verbatim>\<open>show()\<close> on a dialog that exists and was not canceled succeeds on a
  well-formed collection and appends to the calls of that dialog: when the number of
  tracked queries plus the number of queries finished during the display is above one,
  \<^verbatim>\<open>setMaximum\<close> of that sum and \<^verbatim>\<open>setValue\<close> of the finished count; otherwise, when
  exactly one query is tracked, \<^verbatim>\<open>setMaximum\<close> and \<^verbatim>\<open>setValue\<close> of that query's own
  maximum and current progress; in both cases followed only by the label of the first
  query.
\<close>

theorem show_aggregates_progress:
  assumes dlg: "progress_dialog w = Some r" "r < length (dialogs w)"
      "\<not> was_canceled (dialogs w ! r)"
    and ok: "queries_ok (queries w)"
  shows "\<exists>w' label. progress_show w = Inr w' \<and> label_part (queries w) label \<and>
    (if int (length (queries w)) + finished_query_during_display w > 1
     then calls (dialogs w' ! r) = calls (dialogs w ! r) @
            [SetMaximum (int (length (queries w)) + finished_query_during_display w),
             SetValue (finished_query_during_display w)] @ label
     else if length (queries w) = 1
     then \<exists>k q m c. queries w = [(k, q)] \<and> map_of q ''maximum'' = Some (PInt m) \<and>
            map_of q ''current'' = Some (PInt c) \<and>
            calls (dialogs w' ! r) = calls (dialogs w ! r) @ [SetMaximum m, SetValue c] @ label
     else calls (dialogs w' ! r) = calls (dialogs w ! r) @ label)"
proof -
  from ok obtain cs label where cs: "progress_part w cs" and label: "label_part (queries w) label"
    and res: "show_existing r w = Inr (with_calls r (cs @ label) w)"
    using show_existing_result by blast
  let ?w' = "with_calls r (cs @ label) w"
  from dlg res have 1: "progress_show w = Inr ?w'"
    by (simp add: progress_show_existing)
  from dlg(2) have 2: "calls (dialogs ?w' ! r) = calls (dialogs w ! r) @ cs @ label"
    by simp
  have "if int (length (queries w)) + finished_query_during_display w > 1
     then calls (dialogs ?w' ! r) = calls (dialogs w ! r) @
            [SetMaximum (int (length (queries w)) + finished_query_during_display w),
             SetValue (finished_query_during_display w)] @ label
     else if length (queries w) = 1
     then \<exists>k q m c. queries w = [(k, q)] \<and> map_of q ''maximum'' = Some (PInt m) \<and>
            map_of q ''current'' = Some (PInt c) \<and>
            calls (dialogs ?w' ! r) = calls (dialogs w ! r) @ [SetMaximum m, SetValue c] @ label
     else calls (dialogs ?w' ! r) = calls (dialogs w ! r) @ label"
    using cs unfolding 2 by (auto split: if_splits)
  with 1 label show ?thesis by blast
qed

text \<open>
  C2, at the example state: one tracked query with progress 3 of 10 and no finished
  query, so the dialog gets the maximum 10 and the value 3.
\<close>

theorem show_aggregates_progress_witness:
  "progress_dialog one_query_world = Some 0 \<and> 0 < length (dialogs one_query_world) \<and>
   \<not> was_canceled (dialogs one_query_world ! 0) \<and> queries_ok (queries one_query_world) \<and>
   (\<exists>w'. progress_show one_query_world = Inr w' \<and>
      calls (dialogs w' ! 0) = calls (dialogs one_query_world ! 0) @
        [SetMaximum 10, SetValue 3, SetLabelText ''Loading''])"
proof -
  have h: "progress_dialog one_query_world = Some 0" "0 < length (dialogs one_query_world)"
    "\<not> was_canceled (dialogs one_query_world ! 0)"
    by (simp_all add: one_query_world_def)
  have q: "queries one_query_world =
     [(''a'', [(''explanation'', PStr ''Loading''), (''current'', PInt 3),
               (''maximum'', PInt 10), (''response'', PResponse 7)])]"
    "finished_query_during_display one_query_world = 0"
    by (simp_all add: one_query_world_def)
  from show_aggregates_progress [OF h queries_ok_one_query_world]
  have "\<exists>w'. progress_show one_query_world = Inr w' \<and>
      calls (dialogs w' ! 0) = calls (dialogs one_query_world ! 0) @
        [SetMaximum 10, SetValue 3, SetLabelText ''Loading'']"
    unfolding q by auto
  with h queries_ok_one_query_world show ?thesis by simp
qed

section \<open>C3: completion removes the entry and hides the dialog\<close>

text \<open>
  C3: \<^verbatim>\<open>_removeQuerySlot\<close> with the id of a tracked query succeeds, removes that entry
  and leaves every other entry as it was. When the collection becomes empty, the
  dialog reference is cleared and the dialog that was held receives \<^verbatim>\<open>cancel()\<close> and
  \<^verbatim>\<open>deleteLater()\<close>; when queries remain, a dialog is held afterwards.
\<close>

theorem removeQuerySlot_removes_and_hides:
  assumes tracked: "map_of (queries w) query_id \<noteq> None"
    and ok: "queries_ok (queries w)" and dlg: "dialog_ok w"
  shows "\<exists>w'. removeQuerySlot query_id w = Inr w' \<and>
    map_of (queries w') = (map_of (queries w))(query_id := None) \<and>
    (if queries w' = []
     then progress_dialog w' = None \<and>
          (case progress_dialog w of
             None \<Rightarrow> dialogs w' = dialogs w
           | Some r \<Rightarrow> calls (dialogs w' ! r) = calls (dialogs w ! r) @ [Cancel, DeleteLater])
     else progress_dialog w' \<noteq> None)"
proof -
  define w2 where "w2 = w\<lparr>finished_query_during_display := finished_query_during_display w + 1,
               queries := dict_del query_id (queries w)\<rparr>"
  from tracked have step: "removeQuerySlot query_id w =
      (if length (queries w2) = 0 then Inr (hide w2) else progress_show w2)"
    by (simp add: removeQuerySlot_def Let_def w2_def)
  have w2: "queries w2 = dict_del query_id (queries w)" "progress_dialog w2 = progress_dialog w"
    "dialogs w2 = dialogs w"
    by (simp_all add: w2_def)
  have q2: "map_of (queries w2) = (map_of (queries w))(query_id := None)"
    by (simp add: w2(1) map_of_dict_del)
  show ?thesis
  proof (cases "queries w2 = []")
    case True
    with step have res: "removeQuerySlot query_id w = Inr (hide w2)" by simp
    have 1: "queries (hide w2) = queries w2" "progress_dialog (hide w2) = None"
      by (simp_all add: hide_result split: option.splits)
    from dlg have 2: "case progress_dialog w of
             None \<Rightarrow> dialogs (hide w2) = dialogs w
           | Some r \<Rightarrow> calls (dialogs (hide w2) ! r) = calls (dialogs w ! r) @ [Cancel, DeleteLater]"
      by (simp add: hide_result dialog_ok_def w2 split: option.splits)
    from 1 True have "queries (hide w2) = []" by simp
    with 1 2 q2 have "map_of (queries (hide w2)) = (map_of (queries w))(query_id := None) \<and>
      (if queries (hide w2) = []
       then progress_dialog (hide w2) = None \<and>
          (case progress_dialog w of
             None \<Rightarrow> dialogs (hide w2) = dialogs w
           | Some r \<Rightarrow> calls (dialogs (hide w2) ! r) = calls (dialogs w ! r) @ [Cancel, DeleteLater])
       else progress_dialog (hide w2) \<noteq> None)"
      by (simp only: if_True simp_thms)
    with res show ?thesis by blast
  next
    case False
    with step have res: "removeQuerySlot query_id w = progress_show w2" by simp
    from ok have ok2: "queries_ok (queries w2)" by (simp add: w2 queries_ok_dict_del)
    from dlg have dlg2: "dialog_ok w2" by (simp add: dialog_ok_def w2 split: option.splits)
    from ok2 dlg2 obtain w' r where 1: "progress_show w2 = Inr w'" "progress_dialog w' = Some r"
      using progress_show_dialog by blast
    from ok2 obtain w'' where 2: "progress_show w2 = Inr w''" "queries w'' = queries w2"
      using progress_show_frame by blast
    from 1 2 have 3: "queries w' = queries w2" by simp
    with False q2 1(2) have "map_of (queries w') = (map_of (queries w))(query_id := None) \<and>
      (if queries w' = []
       then progress_dialog w' = None \<and>
          (case progress_dialog w of
             None \<Rightarrow> dialogs w' = dialogs w
           | Some r \<Rightarrow> calls (dialogs w' ! r) = calls (dialogs w ! r) @ [Cancel, DeleteLater])
       else progress_dialog w' \<noteq> None)"
      by simp
    with res 1(1) show ?thesis by auto
  qed
qed

text \<open>
  C3, at the example state: removing the only query empties the collection, clears the
  reference and cancels and deletes the dialog 0.
\<close>

theorem removeQuerySlot_removes_and_hides_witness:
  "map_of (queries one_query_world) ''a'' \<noteq> None \<and> queries_ok (queries one_query_world) \<and>
   dialog_ok one_query_world \<and>
   (\<exists>w'. removeQuerySlot ''a'' one_query_world = Inr w' \<and> queries w' = [] \<and>
      progress_dialog w' = None \<and>
      calls (dialogs w' ! 0) = calls (dialogs one_query_world ! 0) @ [Cancel, DeleteLater])"
proof -
  have h: "map_of (queries one_query_world) ''a'' \<noteq> None" "dialog_ok one_query_world"
    by (simp_all add: one_query_world_def dialog_ok_def)
  have d: "progress_dialog one_query_world = Some 0"
    "(map_of (queries one_query_world))(''a'' := None) = Map.empty"
    by (simp_all add: one_query_world_def)
  from removeQuerySlot_removes_and_hides [OF h(1) queries_ok_one_query_world h(2)]
  obtain w' where w': "removeQuerySlot ''a'' one_query_world = Inr w'"
    "map_of (queries w') = Map.empty"
    "if queries w' = []
     then progress_dialog w' = None \<and>
          calls (dialogs w' ! 0) = calls (dialogs one_query_world ! 0) @ [Cancel, DeleteLater]
     else progress_dialog w' \<noteq> None"
    unfolding d by auto
  from w'(2) have "queries w' = []" by simp
  with w' have "removeQuerySlot ''a'' one_query_world = Inr w' \<and> queries w' = [] \<and>
      progress_dialog w' = None \<and>
      calls (dialogs w' ! 0) = calls (dialogs one_query_world ! 0) @ [Cancel, DeleteLater]"
    by simp
  then have "\<exists>w'. removeQuerySlot ''a'' one_query_world = Inr w' \<and> queries w' = [] \<and>
      progress_dialog w' = None \<and>
      calls (dialogs w' ! 0) = calls (dialogs one_query_world ! 0) @ [Cancel, DeleteLater]"
    by (rule exI)
  with h queries_ok_one_query_world show ?thesis by simp
qed

section \<open>C4: starting a query creates its entry\<close>

text \<open>
  C4: \<^verbatim>\<open>_addQuerySlot\<close> succeeds on a well-formed collection; afterwards the id is
  mapped to the record with the given explanation, the current progress 0, the maximum
  progress 0 and the given response, and every other id is mapped as before.
\<close>

theorem addQuerySlot_creates_entry:
  assumes "queries_ok (queries w)"
  shows "\<exists>w'. addQuerySlot query_id explanation response w = Inr w' \<and>
    map_of (queries w') =
      (map_of (queries w))(query_id \<mapsto>
        [(''explanation'', PStr explanation), (''current'', PInt 0), (''maximum'', PInt 0),
         (''response'', PResponse response)])"
proof -
  let ?w1 = "w\<lparr>queries := dict_set query_id (new_query explanation response) (queries w)\<rparr>"
  from assms have "queries_ok (queries ?w1)"
    by (simp add: queries_ok_dict_set query_ok_new_query)
  then obtain w' where "progress_show ?w1 = Inr w'" "queries w' = queries ?w1"
    using progress_show_frame by blast
  then show ?thesis
    by (simp add: addQuerySlot_def map_of_dict_set new_query_def)
qed

text \<open>
  C4, on a new object: the query \<open>a\<close> gets its entry, and no entry appears for \<open>b\<close>.
\<close>

theorem addQuerySlot_creates_entry_witness:
  "queries_ok (queries (new_world 1000)) \<and>
   (\<exists>w'. addQuerySlot ''a'' ''Loading'' 7 (new_world 1000) = Inr w' \<and>
      map_of (queries w') ''a'' =
        Some [(''explanation'', PStr ''Loading''), (''current'', PInt 0), (''maximum'', PInt 0),
              (''response'', PResponse 7)] \<and>
      map_of (queries w') ''b'' = None)"
proof -
  have ok: "queries_ok (queries (new_world 1000))" by (rule queries_ok_new_world)
  have e: "map_of (queries (new_world 1000)) = Map.empty" by (simp add: new_world_def)
  from addQuerySlot_creates_entry [OF ok, of "''a''" "''Loading''" 7]
  obtain w' where w': "addQuerySlot ''a'' ''Loading'' 7 (new_world 1000) = Inr w'"
    "map_of (queries w') =
       [''a'' \<mapsto> [(''explanation'', PStr ''Loading''), (''current'', PInt 0),
                 (''maximum'', PInt 0), (''response'', PResponse 7)]]"
    unfolding e by blast
  from w'(2) have "map_of (queries w') ''a'' =
        Some [(''explanation'', PStr ''Loading''), (''current'', PInt 0), (''maximum'', PInt 0),
              (''response'', PResponse 7)]" "map_of (queries w') ''b'' = None"
    by simp_all
  with w'(1) ok show ?thesis by blast
qed

section \<open>C5: one dialog, created lazily\<close>

text \<open>
  C5: the controller holds at most one dialog, the optional reference
  \<^verbatim>\<open>_progress_dialog\<close>. \<^verbatim>\<open>show()\<close> succeeds on a well-formed state. When there is no
  dialog, or the one held was canceled, it constructs one new dialog, leaves the
  dialogs constructed before as they are, holds the new one, resets the count of
  finished queries to 0 and starts one timer of the configured minimum duration; the
  new dialog receives the constructor, its configuration and the label, and no call
  that displays it: \<^verbatim>\<open>show()\<close> and \<^verbatim>\<open>exec_()\<close> reach it when the timer runs
  \<^verbatim>\<open>_show_dialog\<close>, if the controller is enabled. Otherwise \<^verbatim>\<open>show()\<close> constructs
  nothing, keeps the dialog it holds, and neither resets the count nor starts a timer.
\<close>

theorem show_creates_dialog_lazily:
  assumes ok: "queries_ok (queries w)" and dlg: "dialog_ok w"
  shows "\<exists>w' label. progress_show w = Inr w' \<and>
    (if (case progress_dialog w of None \<Rightarrow> True | Some r \<Rightarrow> was_canceled (dialogs w ! r))
     then progress_dialog w' = Some (length (dialogs w)) \<and>
          dialogs w' =
            dialogs w @ [(create_dialog w)\<lparr>calls := calls (create_dialog w) @ label\<rparr>] \<and>
          label_part (queries w) label \<and>
          finished_query_during_display w' = 0 \<and>
          timers w' = timers w @ [minimum_duration w] \<and>
          dialogs (show_dialog w') =
            dialogs w @
              [(create_dialog w)\<lparr>calls := calls (create_dialog w) @ label @
                 (if enable w then [ShowCall, Exec] else [])\<rparr>]
     else progress_dialog w' = progress_dialog w \<and>
          length (dialogs w') = length (dialogs w) \<and>
          finished_query_during_display w' = finished_query_during_display w \<and>
          timers w' = timers w)"
proof (cases "case progress_dialog w of None \<Rightarrow> True | Some r \<Rightarrow> was_canceled (dialogs w ! r)")
  case True
  from ok obtain label where label: "label_part (queries w) label"
    and res: "show_new w =
             Inr ((with_calls (length (dialogs w)) label (with_new_dialog w))
                    \<lparr>timers := timers w @ [minimum_duration w]\<rparr>)"
    using show_new_result by blast
  let ?w' = "(with_calls (length (dialogs w)) label (with_new_dialog w))
                    \<lparr>timers := timers w @ [minimum_duration w]\<rparr>"
  from True res have "progress_show w = Inr ?w'"
    by (simp add: progress_show_new)
  moreover have "progress_dialog ?w' = Some (length (dialogs w))"
    "dialogs ?w' = dialogs w @ [(create_dialog w)\<lparr>calls := calls (create_dialog w) @ label\<rparr>]"
    "finished_query_during_display ?w' = 0" "timers ?w' = timers w @ [minimum_duration w]"
    by simp_all
  moreover have "dialogs (show_dialog ?w') =
            dialogs w @
              [(create_dialog w)\<lparr>calls := calls (create_dialog w) @ label @
                 (if enable w then [ShowCall, Exec] else [])\<rparr>]"
    by (simp add: show_dialog_result)
  ultimately show ?thesis using True label by (simp only: if_True) blast
next
  case False
  then obtain r where r: "progress_dialog w = Some r" "\<not> was_canceled (dialogs w ! r)"
    by (cases "progress_dialog w") simp_all
  from ok obtain cs where res: "show_existing r w = Inr (with_calls r cs w)"
    using show_existing_ok by blast
  with r have "progress_show w = Inr (with_calls r cs w)"
    by (simp add: progress_show_existing)
  moreover have "progress_dialog (with_calls r cs w) = progress_dialog w"
    "length (dialogs (with_calls r cs w)) = length (dialogs w)"
    "finished_query_during_display (with_calls r cs w) = finished_query_during_display w"
    "timers (with_calls r cs w) = timers w"
    by simp_all
  ultimately show ?thesis using False by (simp only: if_False) blast
qed

text \<open>
  C5, on a new object and at the example state: the first \<^verbatim>\<open>show()\<close> constructs the
  dialog 0 and starts a timer of 1000 ms; a later \<^verbatim>\<open>show()\<close> keeps the dialog 0 and
  constructs none.
\<close>

theorem show_creates_dialog_lazily_witness:
  "queries_ok (queries (new_world 1000)) \<and> dialog_ok (new_world 1000) \<and>
   (\<exists>w'. progress_show (new_world 1000) = Inr w' \<and> progress_dialog w' = Some 0 \<and>
      length (dialogs w') = 1 \<and> finished_query_during_display w' = 0 \<and> timers w' = [1000]) \<and>
   queries_ok (queries one_query_world) \<and> dialog_ok one_query_world \<and>
   (\<exists>w'. progress_show one_query_world = Inr w' \<and> progress_dialog w' = Some 0 \<and>
      length (dialogs w') = 1 \<and> timers w' = [1000])"
proof -
  have h1: "dialog_ok (new_world 1000)" and h2: "dialog_ok one_query_world"
    by (simp_all add: dialog_ok_def new_world_def one_query_world_def)
  have v1: "progress_dialog (new_world 1000) = None" "dialogs (new_world 1000) = []"
    "timers (new_world 1000) = []" "minimum_duration (new_world 1000) = 1000"
    and v2: "progress_dialog one_query_world = Some 0" "length (dialogs one_query_world) = 1"
    "timers one_query_world = [1000]" "\<not> was_canceled (dialogs one_query_world ! 0)"
    by (simp_all add: new_world_def one_query_world_def)
  from show_creates_dialog_lazily [OF queries_ok_new_world h1]
  have 1: "\<exists>w'. progress_show (new_world 1000) = Inr w' \<and> progress_dialog w' = Some 0 \<and>
      length (dialogs w') = 1 \<and> finished_query_during_display w' = 0 \<and> timers w' = [1000]"
    by (auto simp: v1)
  from show_creates_dialog_lazily [OF queries_ok_one_query_world h2]
  have 2: "\<exists>w'. progress_show one_query_world = Inr w' \<and> progress_dialog w' = Some 0 \<and>
      length (dialogs w') = 1 \<and> timers w' = [1000]"
    by (auto simp: v2)
  from 1 2 h1 h2 queries_ok_new_world queries_ok_one_query_world show ?thesis
    by (intro conjI)
qed

section \<open>C6: a progress callback updates the entry\<close>

text \<open>
  C6: \<^verbatim>\<open>_progressSlot\<close> with the id of a tracked query succeeds; afterwards the entry
  of that id has the given current and maximum progress, its other keys (the
  explanation and the response among them) have the values they had, and every other
  id is mapped as before.
\<close>

theorem progressSlot_updates_entry:
  assumes tracked: "map_of (queries w) query_id = Some q" and ok: "queries_ok (queries w)"
  shows "\<exists>w' q'. progressSlot query_id current maximum w = Inr w' \<and>
    map_of (queries w') = (map_of (queries w))(query_id \<mapsto> q') \<and>
    map_of q' = (map_of q)(''current'' \<mapsto> PInt current, ''maximum'' \<mapsto> PInt maximum) \<and>
    map_of q' ''explanation'' = map_of q ''explanation'' \<and>
    map_of q' ''response'' = map_of q ''response''"
proof -
  let ?q' = "dict_set ''maximum'' (PInt maximum) (dict_set ''current'' (PInt current) q)"
  let ?w1 = "w\<lparr>queries := dict_set query_id ?q' (queries w)\<rparr>"
  from ok tracked have "query_ok q" by (rule queries_ok_lookup)
  then have "query_ok ?q'" by (rule query_ok_progress)
  with ok have "queries_ok (queries ?w1)" by (simp add: queries_ok_dict_set)
  then obtain w' where 1: "progress_show ?w1 = Inr w'" "queries w' = queries ?w1"
    using progress_show_frame by blast
  from tracked 1 have "progressSlot query_id current maximum w = Inr w'"
    by (simp add: progressSlot_def)
  moreover from 1 have "map_of (queries w') = (map_of (queries w))(query_id \<mapsto> ?q')"
    by (simp add: map_of_dict_set)
  moreover have "map_of ?q' = (map_of q)(''current'' \<mapsto> PInt current, ''maximum'' \<mapsto> PInt maximum)"
    by (simp add: map_of_dict_set)
  moreover have "map_of ?q' ''explanation'' = map_of q ''explanation''"
    "map_of ?q' ''response'' = map_of q ''response''"
    by (simp_all add: map_of_dict_set)
  ultimately show ?thesis by blast
qed

text \<open>
  C6, at the example state: the progress of the query \<open>a\<close> goes from 3 of 10 to 5 of 10,
  its explanation and response stay.
\<close>

theorem progressSlot_updates_entry_witness:
  "map_of (queries one_query_world) ''a'' =
     Some [(''explanation'', PStr ''Loading''), (''current'', PInt 3), (''maximum'', PInt 10),
           (''response'', PResponse 7)] \<and>
   queries_ok (queries one_query_world) \<and>
   (\<exists>w' q'. progressSlot ''a'' 5 10 one_query_world = Inr w' \<and>
      map_of (queries w') ''a'' = Some q' \<and>
      map_of q' ''current'' = Some (PInt 5) \<and> map_of q' ''maximum'' = Some (PInt 10) \<and>
      map_of q' ''explanation'' = Some (PStr ''Loading'') \<and>
      map_of q' ''response'' = Some (PResponse 7))"
proof -
  let ?q = "[(''explanation'', PStr ''Loading''), (''current'', PInt 3), (''maximum'', PInt 10),
           (''response'', PResponse 7)]"
  have h: "map_of (queries one_query_world) ''a'' = Some ?q"
    by (simp add: one_query_world_def)
  from progressSlot_updates_entry [OF h queries_ok_one_query_world, of 5 10]
  obtain w' q' where w': "progressSlot ''a'' 5 10 one_query_world = Inr w'"
    "map_of (queries w') = (map_of (queries one_query_world))(''a'' \<mapsto> q')"
    "map_of q' = (map_of ?q)(''current'' \<mapsto> PInt 5, ''maximum'' \<mapsto> PInt 10)"
    "map_of q' ''explanation'' = map_of ?q ''explanation''"
    "map_of q' ''response'' = map_of ?q ''response''"
    by blast
  from w'(2) have 1: "map_of (queries w') ''a'' = Some q'" by simp
  from w'(3) have 2: "map_of q' ''current'' = Some (PInt 5)" "map_of q' ''maximum'' = Some (PInt 10)"
    by simp_all
  from w'(4,5) have 3: "map_of q' ''explanation'' = Some (PStr ''Loading'')"
    "map_of q' ''response'' = Some (PResponse 7)"
    by simp_all
  from w'(1) 1 2 3 have "\<exists>w' q'. progressSlot ''a'' 5 10 one_query_world = Inr w' \<and>
      map_of (queries w') ''a'' = Some q' \<and>
      map_of q' ''current'' = Some (PInt 5) \<and> map_of q' ''maximum'' = Some (PInt 10) \<and>
      map_of q' ''explanation'' = Some (PStr ''Loading'') \<and>
      map_of q' ''response'' = Some (PResponse 7)"
    by blast
  with h queries_ok_one_query_world show ?thesis by blast
qed

section \<open>C7: the operations preserve the data model\<close>

text \<open>
  C7: the collection is well formed when its keys (strings) are distinct and every
  value is a record with exactly the four keys \<open>explanation\<close>, \<open>current\<close>, \<open>maximum\<close>
  and \<open>response\<close>, holding a string, two integers and a response. On a well-formed
  collection each of \<^verbatim>\<open>_addQuerySlot\<close>, \<^verbatim>\<open>_removeQuerySlot\<close>, \<^verbatim>\<open>_progressSlot\<close>,
  \<^verbatim>\<open>_cancelSlot\<close> and \<^verbatim>\<open>show\<close> returns without an exception and leaves a well-formed
  collection, and so does \<^verbatim>\<open>hide\<close>, which cannot raise.
\<close>

theorem operations_preserve_data_model:
  assumes ok: "queries_ok (queries w)"
  shows "(\<exists>w'. addQuerySlot query_id explanation response w = Inr w' \<and> queries_ok (queries w')) \<and>
    (\<exists>w'. removeQuerySlot query_id w = Inr w' \<and> queries_ok (queries w')) \<and>
    (\<exists>w'. progressSlot query_id current maximum w = Inr w' \<and> queries_ok (queries w')) \<and>
    (\<exists>w'. cancelSlot w = Inr w' \<and> queries_ok (queries w')) \<and>
    (\<exists>w'. progress_show w = Inr w' \<and> queries_ok (queries w')) \<and>
    queries_ok (queries (hide w))"
proof (intro conjI)
  let ?w1 = "w\<lparr>queries := dict_set query_id (new_query explanation response) (queries w)\<rparr>"
  from ok have "queries_ok (queries ?w1)"
    by (simp add: queries_ok_dict_set query_ok_new_query)
  then show "\<exists>w'. addQuerySlot query_id explanation response w = Inr w' \<and> queries_ok (queries w')"
    unfolding addQuerySlot_def by (rule progress_show_preserves)
next
  define w1 where "w1 = w\<lparr>finished_query_during_display := finished_query_during_display w + 1\<rparr>"
  define w2 where "w2 = (if map_of (queries w1) query_id \<noteq> None
                         then w1\<lparr>queries := dict_del query_id (queries w1)\<rparr> else w1)"
  have step: "removeQuerySlot query_id w =
      (if length (queries w2) = 0 then Inr (hide w2) else progress_show w2)"
    by (simp add: removeQuerySlot_def Let_def w1_def w2_def)
  from ok have ok2: "queries_ok (queries w2)"
    by (simp add: w1_def w2_def queries_ok_dict_del)
  show "\<exists>w'. removeQuerySlot query_id w = Inr w' \<and> queries_ok (queries w')"
  proof (cases "length (queries w2) = 0")
    case True
    with step ok2 show ?thesis by (simp add: queries_hide)
  next
    case False
    with step have "removeQuerySlot query_id w = progress_show w2" by simp
    with ok2 show ?thesis by (simp add: progress_show_preserves)
  qed
next
  show "\<exists>w'. progressSlot query_id current maximum w = Inr w' \<and> queries_ok (queries w')"
  proof (cases "map_of (queries w) query_id")
    case None
    with ok show ?thesis by (simp add: progressSlot_def)
  next
    case (Some q)
    let ?q' = "dict_set ''maximum'' (PInt maximum) (dict_set ''current'' (PInt current) q)"
    let ?w1 = "w\<lparr>queries := dict_set query_id ?q' (queries w)\<rparr>"
    from ok Some have "query_ok q" by (rule queries_ok_lookup)
    then have "query_ok ?q'" by (rule query_ok_progress)
    with ok have "queries_ok (queries ?w1)" by (simp add: queries_ok_dict_set)
    then have "\<exists>w'. progress_show ?w1 = Inr w' \<and> queries_ok (queries w')"
      by (rule progress_show_preserves)
    with Some show ?thesis by (simp add: progressSlot_def)
  qed
next
  from ok show "\<exists>w'. cancelSlot w = Inr w' \<and> queries_ok (queries w')"
    by (rule cancelSlot_preserves)
next
  from ok show "\<exists>w'. progress_show w = Inr w' \<and> queries_ok (queries w')"
    by (rule progress_show_preserves)
next
  from ok show "queries_ok (queries (hide w))"
    by (simp add: queries_hide)
qed

text \<open>
  C7, at the example state, which is well formed: every operation returns a state, and
  the collection of that state is well formed.
\<close>

theorem operations_preserve_data_model_witness:
  "queries_ok (queries one_query_world) \<and>
   (\<exists>w'. addQuerySlot ''a'' ''Saving'' 8 one_query_world = Inr w' \<and> queries_ok (queries w')) \<and>
   (\<exists>w'. removeQuerySlot ''a'' one_query_world = Inr w' \<and> queries_ok (queries w')) \<and>
   (\<exists>w'. progressSlot ''a'' 5 10 one_query_world = Inr w' \<and> queries_ok (queries w')) \<and>
   (\<exists>w'. cancelSlot one_query_world = Inr w' \<and> queries_ok (queries w')) \<and>
   (\<exists>w'. progress_show one_query_world = Inr w' \<and> queries_ok (queries w')) \<and>
   queries_ok (queries (hide one_query_world))"
  using operations_preserve_data_model [OF queries_ok_one_query_world,
      where query_id = "''a''" and explanation = "''Saving''" and response = 8
        and current = 5 and maximum = 10]
    queries_ok_one_query_world
  by (intro conjI) simp_all

section \<open>C8: the context manager restores the settings\<close>

text \<open>
  C8: for every combination of the four options and every block that completes
  normally, \<^verbatim>\<open>with progress.context(**kwargs): block\<close> completes normally; afterwards
  each setting whose option was passed has the value it had before the statement, each
  setting whose option was not passed has the value the block left, and the rest of the
  state is as the block left it. The block starts in the state before the statement
  with the passed options assigned and nothing else changed.
\<close>

theorem context_restores_settings:
  assumes "body (snd (context_enter kw w)) = Inr w2"
  shows "progress_context kw body w =
      Inr (w2\<lparr>minimum_duration :=
                (if kw_min_duration kw = None then minimum_duration w2 else minimum_duration w),
              enable := (if kw_enable kw = None then enable w2 else enable w),
              cancel_button_text :=
                (if kw_cancel_button_text kw = None then cancel_button_text w2
                 else cancel_button_text w),
              allow_cancel_query :=
                (if kw_allow_cancel_query kw = None then allow_cancel_query w2
                 else allow_cancel_query w)\<rparr>) \<and>
    snd (context_enter kw w) =
      w\<lparr>minimum_duration := (case kw_min_duration kw of None \<Rightarrow> minimum_duration w | Some v \<Rightarrow> v),
        enable := (case kw_enable kw of None \<Rightarrow> enable w | Some v \<Rightarrow> v),
        cancel_button_text :=
          (case kw_cancel_button_text kw of None \<Rightarrow> cancel_button_text w | Some v \<Rightarrow> v),
        allow_cancel_query :=
          (case kw_allow_cancel_query kw of None \<Rightarrow> allow_cancel_query w | Some v \<Rightarrow> v)\<rparr>"
proof
  have "progress_context kw body w =
      bind_err (body (snd (context_enter kw w))) (context_exit kw (fst (context_enter kw w)))"
    by (simp add: progress_context_def split_beta)
  also from assms have "\<dots> = context_exit kw (fst (context_enter kw w)) w2"
    by simp
  finally show "progress_context kw body w =
      Inr (w2\<lparr>minimum_duration :=
                (if kw_min_duration kw = None then minimum_duration w2 else minimum_duration w),
              enable := (if kw_enable kw = None then enable w2 else enable w),
              cancel_button_text :=
                (if kw_cancel_button_text kw = None then cancel_button_text w2
                 else cancel_button_text w),
              allow_cancel_query :=
                (if kw_allow_cancel_query kw = None then allow_cancel_query w2
                 else allow_cancel_query w)\<rparr>)"
    by (simp only: context_exit_result)
next
  show "snd (context_enter kw w) =
      w\<lparr>minimum_duration := (case kw_min_duration kw of None \<Rightarrow> minimum_duration w | Some v \<Rightarrow> v),
        enable := (case kw_enable kw of None \<Rightarrow> enable w | Some v \<Rightarrow> v),
        cancel_button_text :=
          (case kw_cancel_button_text kw of None \<Rightarrow> cancel_button_text w | Some v \<Rightarrow> v),
        allow_cancel_query :=
          (case kw_allow_cancel_query kw of None \<Rightarrow> allow_cancel_query w | Some v \<Rightarrow> v)\<rparr>"
    by (simp only: context_enter_result snd_conv)
qed

text \<open>
  C8, on a new object, with \<^verbatim>\<open>min_duration=0, enable=False\<close> and a block that sets the
  text of the cancel button: inside the block the two passed settings have the passed
  values; afterwards they are 1000 and \<^verbatim>\<open>True\<close> again, and the text set by the block
  stays.
\<close>

theorem context_restores_settings_witness:
  "example_block (snd (context_enter example_kwargs (new_world 1000)))
     = Inr ((new_world 1000)\<lparr>minimum_duration := 0, enable := False,
                              cancel_button_text := ''Stop''\<rparr>) \<and>
   progress_context example_kwargs example_block (new_world 1000)
     = Inr ((new_world 1000)\<lparr>cancel_button_text := ''Stop''\<rparr>)"
proof -
  have h: "example_block (snd (context_enter example_kwargs (new_world 1000)))
     = Inr ((new_world 1000)\<lparr>minimum_duration := 0, enable := False,
                              cancel_button_text := ''Stop''\<rparr>)"
    by (simp add: context_enter_def example_kwargs_def no_locals_def setCancelButtonText_def
        new_world_def example_block_def)
  from context_restores_settings
    [where body = example_block and kw = example_kwargs and w = "new_world 1000", OF h] h
  show ?thesis
    by (simp add: example_kwargs_def new_world_def)
qed

section \<open>C9: callbacks for an id that is not tracked\<close>

text \<open>
  C9, as claimed: \<^verbatim>\<open>_removeQuerySlot\<close> with an id that is not tracked leaves the
  finished-query counter one higher. It fails when queries remain and the dialog was
  canceled by the user: \<^verbatim>\<open>_removeQuerySlot\<close> increments the counter and then calls
  \<^verbatim>\<open>show()\<close>, which constructs a new dialog and resets the counter to 0. In the state
  below the query \<open>a\<close> is running, the user has canceled the dialog, and no query has
  finished; after \<^verbatim>\<open>_removeQuerySlot("b")\<close> the counter is 0, not 1.
\<close>

theorem removeQuerySlot_untracked_counterexample:
  "map_of (queries canceled_world) ''b'' = None \<and>
   finished_query_during_display canceled_world = 0 \<and>
   removeQuerySlot ''b'' canceled_world = Inr restarted_world \<and>
   queries restarted_world = queries canceled_world \<and>
   finished_query_during_display restarted_world = 0"
  by (simp add: method_defs canceled_world_def one_query_world_def restarted_world_def)

text \<open>
  C9, amended: with an id that is not tracked, \<^verbatim>\<open>_progressSlot\<close> returns the state
  unchanged, and \<^verbatim>\<open>_removeQuerySlot\<close> returns a state with the same collection. When
  the collection is empty, the dialog is hidden (the reference cleared, the dialog held
  canceled and deleted) and the counter is one higher. When queries remain and a dialog
  is held that was not canceled, that dialog is kept and the counter is one higher.
  When queries remain and no dialog is held, or the one held was canceled, a new dialog
  is held and the counter is 0.
\<close>

theorem untracked_id_leaves_collection:
  assumes untracked: "map_of (queries w) query_id = None"
    and ok: "queries_ok (queries w)" and dlg: "dialog_ok w"
  shows "progressSlot query_id current maximum w = Inr w \<and>
    (\<exists>w'. removeQuerySlot query_id w = Inr w' \<and> queries w' = queries w \<and>
       (if queries w = []
        then progress_dialog w' = None \<and>
             finished_query_during_display w' = finished_query_during_display w + 1 \<and>
             (case progress_dialog w of
                None \<Rightarrow> dialogs w' = dialogs w
              | Some r \<Rightarrow> calls (dialogs w' ! r) = calls (dialogs w ! r) @ [Cancel, DeleteLater])
        else if (case progress_dialog w of None \<Rightarrow> True
                 | Some r \<Rightarrow> was_canceled (dialogs w ! r))
        then progress_dialog w' = Some (length (dialogs w)) \<and>
             finished_query_during_display w' = 0
        else progress_dialog w' = progress_dialog w \<and>
             finished_query_during_display w' = finished_query_during_display w + 1))"
proof
  from untracked show "progressSlot query_id current maximum w = Inr w"
    by (simp add: progressSlot_def)
next
  define w1 where "w1 = w\<lparr>finished_query_during_display := finished_query_during_display w + 1\<rparr>"
  have w1: "queries w1 = queries w" "progress_dialog w1 = progress_dialog w"
    "dialogs w1 = dialogs w"
    "finished_query_during_display w1 = finished_query_during_display w + 1"
    by (simp_all add: w1_def)
  from untracked have step: "removeQuerySlot query_id w =
      (if length (queries w) = 0 then Inr (hide w1) else progress_show w1)"
    by (simp add: removeQuerySlot_def Let_def w1_def)
  from ok have ok1: "queries_ok (queries w1)" by (simp add: w1)
  from dlg have dlg1: "dialog_ok w1" by (simp add: dialog_ok_def w1 split: option.splits)
  let ?post = "\<lambda>w'. queries w' = queries w \<and>
       (if queries w = []
        then progress_dialog w' = None \<and>
             finished_query_during_display w' = finished_query_during_display w + 1 \<and>
             (case progress_dialog w of
                None \<Rightarrow> dialogs w' = dialogs w
              | Some r \<Rightarrow> calls (dialogs w' ! r) = calls (dialogs w ! r) @ [Cancel, DeleteLater])
        else if (case progress_dialog w of None \<Rightarrow> True
                 | Some r \<Rightarrow> was_canceled (dialogs w ! r))
        then progress_dialog w' = Some (length (dialogs w)) \<and>
             finished_query_during_display w' = 0
        else progress_dialog w' = progress_dialog w \<and>
             finished_query_during_display w' = finished_query_during_display w + 1)"
  have "\<exists>w'. removeQuerySlot query_id w = Inr w' \<and> ?post w'"
  proof (cases "queries w = []")
    case True
    with step have res: "removeQuerySlot query_id w = Inr (hide w1)" by simp
    from dlg have "?post (hide w1)"
      by (simp add: True hide_result w1 dialog_ok_def split: option.splits)
    with res show ?thesis by blast
  next
    case False
    with step have res: "removeQuerySlot query_id w = progress_show w1" by simp
    have "\<exists>w'. progress_show w1 = Inr w' \<and>
      (if (case progress_dialog w of None \<Rightarrow> True | Some r \<Rightarrow> was_canceled (dialogs w ! r))
       then progress_dialog w' = Some (length (dialogs w)) \<and>
            finished_query_during_display w' = 0
       else progress_dialog w' = progress_dialog w \<and>
            finished_query_during_display w' = finished_query_during_display w + 1)"
    proof (cases "case progress_dialog w of None \<Rightarrow> True | Some r \<Rightarrow> was_canceled (dialogs w ! r)")
      case True
      then have "case progress_dialog w1 of None \<Rightarrow> True
                 | Some r \<Rightarrow> was_canceled (dialogs w1 ! r)"
        by (simp add: w1 split: option.splits)
      with ok1 obtain label where "progress_show w1 =
             Inr ((with_calls (length (dialogs w1)) label (with_new_dialog w1))
                    \<lparr>timers := timers w1 @ [minimum_duration w1]\<rparr>)"
        using progress_show_new_result by blast
      with True show ?thesis by (simp add: w1)
    next
      case False
      then obtain r where r: "progress_dialog w = Some r" "\<not> was_canceled (dialogs w ! r)"
        by (cases "progress_dialog w") simp_all
      then have "progress_dialog w1 = Some r" "\<not> was_canceled (dialogs w1 ! r)"
        by (simp_all add: w1)
      with ok1 obtain cs where "progress_show w1 = Inr (with_calls r cs w1)"
        using progress_show_existing_result by blast
      with False r show ?thesis by (simp add: w1)
    qed
    then obtain w' where
      w': "progress_show w1 = Inr w'"
      "if (case progress_dialog w of None \<Rightarrow> True | Some r \<Rightarrow> was_canceled (dialogs w ! r))
       then progress_dialog w' = Some (length (dialogs w)) \<and>
            finished_query_during_display w' = 0
       else progress_dialog w' = progress_dialog w \<and>
            finished_query_during_display w' = finished_query_during_display w + 1"
      by blast
    from ok1 obtain w'' where "progress_show w1 = Inr w''" "queries w'' = queries w1"
      using progress_show_frame by blast
    with w'(1) have "queries w' = queries w" by (simp add: w1)
    with w'(2) False have "?post w'" by simp
    with res w'(1) show ?thesis by auto
  qed
  then show "\<exists>w'. removeQuerySlot query_id w = Inr w' \<and> ?post w'" .
qed

text \<open>
  C9, at the example state, where the dialog is held and not canceled: a progress
  callback for the unknown id \<open>b\<close> changes nothing, and a completion callback for it
  leaves the collection and the dialog and takes the counter from 0 to 1.
\<close>

theorem untracked_id_leaves_collection_witness:
  "map_of (queries one_query_world) ''b'' = None \<and> queries_ok (queries one_query_world) \<and>
   dialog_ok one_query_world \<and>
   progressSlot ''b'' 5 10 one_query_world = Inr one_query_world \<and>
   (\<exists>w'. removeQuerySlot ''b'' one_query_world = Inr w' \<and>
      queries w' = queries one_query_world \<and> progress_dialog w' = Some 0 \<and>
      finished_query_during_display w' = 1)"
proof -
  have h: "map_of (queries one_query_world) ''b'' = None" "dialog_ok one_query_world"
    by (simp_all add: one_query_world_def dialog_ok_def)
  have v: "queries one_query_world \<noteq> []" "progress_dialog one_query_world = Some 0"
    "\<not> was_canceled (dialogs one_query_world ! 0)"
    "finished_query_during_display one_query_world = 0"
    by (simp_all add: one_query_world_def)
  from untracked_id_leaves_collection [OF h(1) queries_ok_one_query_world h(2), of 5 10]
  have "progressSlot ''b'' 5 10 one_query_world = Inr one_query_world \<and>
   (\<exists>w'. removeQuerySlot ''b'' one_query_world = Inr w' \<and>
      queries w' = queries one_query_world \<and> progress_dialog w' = Some 0 \<and>
      finished_query_during_display w' = 1)"
    by (simp add: v)
  with h queries_ok_one_query_world show ?thesis by simp
qed

section \<open>C10: the singleton accessor\<close>

text \<open>
  C10: \<^verbatim>\<open>Progress.instance()\<close> returns the object the class attribute \<^verbatim>\<open>_instance\<close>
  refers to afterwards. When the class has no such attribute, or it is \<^verbatim>\<open>None\<close>, the
  call constructs one \<^verbatim>\<open>Progress\<close> object, as \<^verbatim>\<open>__init__\<close> makes it, and returns it;
  otherwise it changes nothing. A call in any later state in which the class attribute
  has not been reassigned returns the same reference and changes nothing.
\<close>

theorem instance_is_singleton:
  assumes "instance_attr c' = instance_attr (snd (progress_instance c))"
  shows "fst (progress_instance c') = fst (progress_instance c) \<and>
    snd (progress_instance c') = c' \<and>
    instance_attr (snd (progress_instance c)) = Some (Some (fst (progress_instance c))) \<and>
    (if instance_attr c = None \<or> instance_attr c = Some None
     then fst (progress_instance c) = length (objects c) \<and>
          objects (snd (progress_instance c)) = objects c @ [init 1000]
     else snd (progress_instance c) = c)"
proof -
  have 1: "instance_attr (snd (progress_instance c)) = Some (Some (fst (progress_instance c)))"
    by (simp add: progress_instance_def Let_def split: option.splits)
  with assms have "instance_attr c' = Some (Some (fst (progress_instance c)))"
    by simp
  then have 2: "progress_instance c' = (fst (progress_instance c), c')"
    by (simp add: progress_instance_def)
  have 3: "if instance_attr c = None \<or> instance_attr c = Some None
     then fst (progress_instance c) = length (objects c) \<and>
          objects (snd (progress_instance c)) = objects c @ [init 1000]
     else snd (progress_instance c) = c"
    by (simp add: progress_instance_def Let_def split: option.splits)
  from 1 2 3 show ?thesis by simp
qed

text \<open>
  C10, from a class without the attribute: the first call constructs the object 0; after
  the object has been used (here \<^verbatim>\<open>_enable\<close> was set to \<^verbatim>\<open>False\<close>), a second call
  returns the object 0 again and changes nothing.
\<close>

theorem instance_is_singleton_witness:
  "instance_attr ((snd (progress_instance no_instance))\<lparr>objects := [(init 1000)\<lparr>enable := False\<rparr>]\<rparr>)
     = instance_attr (snd (progress_instance no_instance)) \<and>
   fst (progress_instance no_instance) = 0 \<and>
   objects (snd (progress_instance no_instance)) = [init 1000] \<and>
   progress_instance ((snd (progress_instance no_instance))\<lparr>objects := [(init 1000)\<lparr>enable := False\<rparr>]\<rparr>)
     = (0, (snd (progress_instance no_instance))\<lparr>objects := [(init 1000)\<lparr>enable := False\<rparr>]\<rparr>)"
proof -
  let ?later = "(snd (progress_instance no_instance))\<lparr>objects := [(init 1000)\<lparr>enable := False\<rparr>]\<rparr>"
  have h: "instance_attr ?later = instance_attr (snd (progress_instance no_instance))"
    by simp
  have n: "instance_attr no_instance = None" "objects no_instance = []"
    by (simp_all add: no_instance_def)
  from instance_is_singleton [OF h]
  have "fst (progress_instance ?later) = 0 \<and> snd (progress_instance ?later) = ?later \<and>
    fst (progress_instance no_instance) = 0 \<and>
    objects (snd (progress_instance no_instance)) = [init 1000]"
    by (simp add: n)
  with h show ?thesis by (simp add: prod_eq_iff)
qed

end
